theory Spec2Isabelle
  imports Main
begin

section \<open>The fingerprint transformer of the materials-data notebook\<close>

text \<open>
  The notebook \<^verbatim>\<open>1_ml-with-fingerprints.ipynb\<close> defines one function,
  \<^verbatim>\<open>compute_morgan_fingerprints\<close>, and one class,
  \<^verbatim>\<open>MorganFingerprintTransformer\<close>, with the methods \<^verbatim>\<open>__init__\<close>,
  \<^verbatim>\<open>fit\<close> and \<^verbatim>\<open>transform\<close>. Everything else they call belongs to
  the cheminformatics library and to the array library. Exceptions are values of the
  type \<open>error\<close>; a call that raises returns \<open>Inl\<close>.
\<close>

subsection \<open>Exceptions\<close>

text \<open>
  \<open>ArgumentError\<close> is what the binding layer of the cheminformatics library raises
  when a function that expects a molecule receives \<^verbatim>\<open>None\<close>.
  \<open>ValueError\<close> is what the array library raises when it is asked to stack
  nothing, or rows of different widths. \<open>RDKitError\<close> stands for any exception
  raised inside the fingerprint routine on a parsed molecule, with its message.
  \<open>DecodeError\<close> (with the position and the element) and \<open>ConfigurationError\<close>
  are the two kinds the specification names; no line of the notebook raises them.
\<close>

datatype error =
    ArgumentError
  | ValueError
  | RDKitError string
  | DecodeError nat string
  | ConfigurationError

subsection \<open>The external collaborators\<close>

text \<open>
  The cheminformatics library is a parameter: its parser of identifier strings
  (\<^verbatim>\<open>Chem.MolFromSmiles\<close>, which returns \<^verbatim>\<open>None\<close> on a string it
  cannot parse, and does not raise) and its fingerprint routine on a parsed molecule,
  called with the radius and the number of bits in that order.
\<close>

record 'mol rdkit =
  MolFromSmiles :: "string \<Rightarrow> 'mol option"
  MorganFingerprint :: "'mol \<Rightarrow> int \<Rightarrow> int \<Rightarrow> string + bool list"

text \<open>
  \<^verbatim>\<open>AllChem.GetMorganFingerprintAsBitVect(molecule, radius, nBits)\<close> as the
  notebook calls it: the molecule may be \<^verbatim>\<open>None\<close>, and then the call raises.
\<close>

definition GetMorganFingerprintAsBitVect ::
  "'mol rdkit \<Rightarrow> 'mol option \<Rightarrow> int \<Rightarrow> int \<Rightarrow> error + bool list" where
  "GetMorganFingerprintAsBitVect lib molecule radius nBits =
     (case molecule of
        None \<Rightarrow> Inl ArgumentError
      | Some mol \<Rightarrow>
          (case MorganFingerprint lib mol radius nBits of
             Inl msg \<Rightarrow> Inl (RDKitError msg)
           | Inr bv \<Rightarrow> Inr bv))"

text \<open>\<^verbatim>\<open>np.zeros((n,), dtype=np.bool_)\<close>.\<close>

definition np_zeros :: "nat \<Rightarrow> bool list" where
  "np_zeros n = replicate n False"

text \<open>
  \<^verbatim>\<open>DataStructs.ConvertToNumpyArray(fingerprint, arr)\<close> resizes the destination
  to the number of bits of the fingerprint (keeping what fits, padding with zeros) and
  then stores bit \<open>i\<close> at index \<open>i\<close>, for each \<open>i\<close>. The destination is mutated in
  place; the model returns its new contents.
\<close>

definition np_resize :: "bool list \<Rightarrow> nat \<Rightarrow> bool list" where
  "np_resize arr n = take n arr @ replicate (n - length arr) False"

definition ConvertToNumpyArray :: "bool list \<Rightarrow> bool list \<Rightarrow> bool list" where
  "ConvertToNumpyArray bv arr =
     fold (\<lambda>i a. a[i := bv ! i]) [0..<length bv] (np_resize arr (length bv))"

text \<open>
  \<^verbatim>\<open>np.vstack\<close> on a list of one-dimensional arrays: each becomes a row. It raises
  \<open>ValueError\<close> on an empty list and on rows whose widths differ.
\<close>

definition vstack :: "bool list list \<Rightarrow> error + bool list list" where
  "vstack tup =
     (case tup of
        [] \<Rightarrow> Inl ValueError
      | r # rs \<Rightarrow>
          if list_all (\<lambda>r'. length r' = length r) rs then Inr (r # rs)
          else Inl ValueError)"

subsection \<open>The notebook's function\<close>

definition compute_morgan_fingerprints ::
  "'mol rdkit \<Rightarrow> string \<Rightarrow> int \<Rightarrow> int \<Rightarrow> error + bool list" where
  "compute_morgan_fingerprints lib smiles fingerprint_length fingerprint_radius =
     (let molecule = MolFromSmiles lib smiles in
      case GetMorganFingerprintAsBitVect lib molecule fingerprint_radius fingerprint_length of
        Inl e \<Rightarrow> Inl e
      | Inr fingerprint \<Rightarrow>
          (let arr = np_zeros 1 in Inr (ConvertToNumpyArray fingerprint arr)))"

subsection \<open>The notebook's class\<close>

text \<open>
  An instance holds the two attributes its constructor sets. The attribute
  \<^verbatim>\<open>length\<close> is the field \<open>length_attr\<close>.
\<close>

record MorganFingerprintTransformer =
  length_attr :: int
  radius :: int

text \<open>
  \<^verbatim>\<open>__init__(self, length: int = 256, radius: int = 4)\<close>: an argument left out
  is \<open>None\<close> here and takes its default.
\<close>

definition init :: "int option \<Rightarrow> int option \<Rightarrow> MorganFingerprintTransformer" where
  "init len rad =
     \<lparr>length_attr = (case len of None \<Rightarrow> 256 | Some l \<Rightarrow> l),
      radius = (case rad of None \<Rightarrow> 4 | Some r \<Rightarrow> r)\<rparr>"

text \<open>
  A method takes the instance and returns its result together with the instance as the
  call leaves it. \<^verbatim>\<open>fit\<close> returns \<^verbatim>\<open>self\<close>; it reads neither \<open>X\<close> nor
  \<open>y\<close>, whatever they are.
\<close>

definition fit ::
  "MorganFingerprintTransformer \<Rightarrow> 'x \<Rightarrow> 'y option \<Rightarrow>
   MorganFingerprintTransformer \<times> MorganFingerprintTransformer" where
  "fit self X y = (self, self)"

text \<open>
  The list comprehension of \<^verbatim>\<open>transform\<close>: the elements are converted from
  left to right, and the first one that raises ends the call.
\<close>

fun fing :: "'mol rdkit \<Rightarrow> MorganFingerprintTransformer \<Rightarrow> string list \<Rightarrow> error + bool list list" where
  "fing lib self [] = Inr []"
| "fing lib self (m # ms) =
     (case compute_morgan_fingerprints lib m (length_attr self) (radius self) of
        Inl e \<Rightarrow> Inl e
      | Inr v \<Rightarrow>
          (case fing lib self ms of
             Inl e \<Rightarrow> Inl e
           | Inr vs \<Rightarrow> Inr (v # vs)))"

definition transform ::
  "'mol rdkit \<Rightarrow> MorganFingerprintTransformer \<Rightarrow> string list \<Rightarrow> 'y option \<Rightarrow>
   (error + bool list list) \<times> MorganFingerprintTransformer" where
  "transform lib self X y =
     (case fing lib self X of
        Inl e \<Rightarrow> (Inl e, self)
      | Inr fs \<Rightarrow> (vstack fs, self))"

subsection \<open>Valid identifiers and accepted configurations\<close>

text \<open>
  An identifier is valid when the parser returns a molecule for it. The predicate
  \<open>returns_bits lib L R m\<close> says that \<open>m\<close> is valid and that the fingerprint
  routine, called on its molecule with radius \<open>R\<close> and \<open>L\<close> bits, returns a bit
  vector of \<open>L\<close> bits. It speaks of one identifier, one length and one radius.
\<close>

definition valid_identifier :: "'mol rdkit \<Rightarrow> string \<Rightarrow> bool" where
  "valid_identifier lib m \<longleftrightarrow> MolFromSmiles lib m \<noteq> None"

definition returns_bits :: "'mol rdkit \<Rightarrow> int \<Rightarrow> int \<Rightarrow> string \<Rightarrow> bool" where
  "returns_bits lib L R m =
     (case MolFromSmiles lib m of
        None \<Rightarrow> False
      | Some mol \<Rightarrow>
          (case MorganFingerprint lib mol R L of
             Inl msg \<Rightarrow> False
           | Inr bv \<Rightarrow> int (length bv) = L))"

text \<open>
  A small library for concrete runs: it parses the non-empty strings over the atoms
  C, N and O, a molecule is the list of its atoms, and the fingerprint sets, for each
  atom, the bit at the atom's code modulo the number of bits. It rejects a
  non-positive number of bits and a negative radius, and accepts the radius 0.
\<close>

definition atom_code :: "char \<Rightarrow> nat" where
  "atom_code c = (if c = CHR ''C'' then 6 else if c = CHR ''N'' then 7 else 8)"

definition chain_lib :: "string rdkit" where
  "chain_lib =
     \<lparr>MolFromSmiles = (\<lambda>s. if s \<noteq> [] \<and> list_all (\<lambda>c. c \<in> set ''CNO'') s then Some s else None),
      MorganFingerprint = (\<lambda>mol r n.
         if 0 < n \<and> 0 \<le> r
         then Inr (map (\<lambda>i. list_ex (\<lambda>c. atom_code c mod nat n = i) mol) [0..<nat n])
         else Inl ''OverflowError'')\<rparr>"

subsection \<open>The same code with its arrays in memory and a library that has a state\<close>

text \<open>
  The definitions above treat an array as its contents and a library call as a function
  of its arguments. The definitions below drop both simplifications. An array is an
  object in memory: \<^verbatim>\<open>np.zeros\<close> and \<^verbatim>\<open>np.vstack\<close> allocate a new one,
  \<^verbatim>\<open>ConvertToNumpyArray\<close> writes into the one it is given, and a function returns
  the address of its array. The memory is the list of the arrays allocated so far; the
  address of an array is its position, and allocation appends. The library has a state
  of its own, which each of its calls receives and may change, and on which its answers
  may depend.
\<close>

datatype ndarray = Vector "bool list" | Matrix "bool list list"

record ('mol, 's) rdkit_st =
  MolFromSmiles_st :: "'s \<Rightarrow> string \<Rightarrow> 'mol option \<times> 's"
  MorganFingerprint_st :: "'s \<Rightarrow> 'mol \<Rightarrow> int \<Rightarrow> int \<Rightarrow> (string + bool list) \<times> 's"

record 's memory =
  library :: 's
  arrays :: "ndarray list"

definition array_at :: "'s memory \<Rightarrow> nat \<Rightarrow> ndarray option" where
  "array_at w a = (if a < length (arrays w) then Some (arrays w ! a) else None)"

definition vector_at :: "'s memory \<Rightarrow> nat \<Rightarrow> bool list option" where
  "vector_at w a =
     (case array_at w a of
        Some (Vector v) \<Rightarrow> Some v
      | _ \<Rightarrow> None)"

definition np_zeros_m :: "'s memory \<Rightarrow> nat \<Rightarrow> nat \<times> 's memory" where
  "np_zeros_m w n = (length (arrays w), w\<lparr>arrays := arrays w @ [Vector (np_zeros n)]\<rparr>)"

text \<open>
  The destination of \<^verbatim>\<open>ConvertToNumpyArray\<close> is, in the notebook, the vector
  allocated on the line before. A destination that is no vector in memory does not
  arise there; the binding would reject it.
\<close>

definition ConvertToNumpyArray_m :: "'s memory \<Rightarrow> bool list \<Rightarrow> nat \<Rightarrow> error + 's memory" where
  "ConvertToNumpyArray_m w bv a =
     (case vector_at w a of
        None \<Rightarrow> Inl ArgumentError
      | Some arr \<Rightarrow> Inr (w\<lparr>arrays := (arrays w)[a := Vector (ConvertToNumpyArray bv arr)]\<rparr>))"

text \<open>
  \<^verbatim>\<open>np.vstack\<close> reads the rows at the addresses it is given and allocates the
  matrix. In the notebook every address holds a vector.
\<close>

definition vstack_m :: "'s memory \<Rightarrow> nat list \<Rightarrow> (error + nat) \<times> 's memory" where
  "vstack_m w tup =
     (case those (map (vector_at w) tup) of
        None \<Rightarrow> (Inl ValueError, w)
      | Some rows \<Rightarrow>
          (case vstack rows of
             Inl e \<Rightarrow> (Inl e, w)
           | Inr M \<Rightarrow> (Inr (length (arrays w)), w\<lparr>arrays := arrays w @ [Matrix M]\<rparr>)))"

definition compute_morgan_fingerprints_m ::
  "('mol, 's) rdkit_st \<Rightarrow> 's memory \<Rightarrow> string \<Rightarrow> int \<Rightarrow> int \<Rightarrow> (error + nat) \<times> 's memory" where
  "compute_morgan_fingerprints_m lib w smiles fingerprint_length fingerprint_radius =
     (let (molecule, s1) = MolFromSmiles_st lib (library w) smiles;
          w1 = w\<lparr>library := s1\<rparr>
      in case molecule of
           None \<Rightarrow> (Inl ArgumentError, w1)
         | Some mol \<Rightarrow>
             (let (res, s2) = MorganFingerprint_st lib s1 mol fingerprint_radius fingerprint_length;
                  w2 = w1\<lparr>library := s2\<rparr>
              in case res of
                   Inl msg \<Rightarrow> (Inl (RDKitError msg), w2)
                 | Inr fingerprint \<Rightarrow>
                     (let (arr, w3) = np_zeros_m w2 1
                      in case ConvertToNumpyArray_m w3 fingerprint arr of
                           Inl e \<Rightarrow> (Inl e, w3)
                         | Inr w4 \<Rightarrow> (Inr arr, w4))))"

fun fing_m ::
  "('mol, 's) rdkit_st \<Rightarrow> 's memory \<Rightarrow> MorganFingerprintTransformer \<Rightarrow> string list \<Rightarrow>
   (error + nat list) \<times> 's memory" where
  "fing_m lib w self [] = (Inr [], w)"
| "fing_m lib w self (m # ms) =
     (case compute_morgan_fingerprints_m lib w m (length_attr self) (radius self) of
        (Inl e, w1) \<Rightarrow> (Inl e, w1)
      | (Inr a, w1) \<Rightarrow>
          (case fing_m lib w1 self ms of
             (Inl e, w2) \<Rightarrow> (Inl e, w2)
           | (Inr as, w2) \<Rightarrow> (Inr (a # as), w2)))"

text \<open>
  \<^verbatim>\<open>transform\<close> returns the address of the matrix, or raises, together with the
  instance and the memory as the call leaves them.
\<close>

definition transform_m ::
  "('mol, 's) rdkit_st \<Rightarrow> 's memory \<Rightarrow> MorganFingerprintTransformer \<Rightarrow> string list \<Rightarrow> 'y option \<Rightarrow>
   ((error + nat) \<times> MorganFingerprintTransformer) \<times> 's memory" where
  "transform_m lib w self X y =
     (case fing_m lib w self X of
        (Inl e, w1) \<Rightarrow> ((Inl e, self), w1)
      | (Inr fs, w1) \<Rightarrow>
          (case vstack_m w1 fs of (r, w2) \<Rightarrow> ((r, self), w2)))"

text \<open>
  What a caller sees of a result: the error, or the contents of the array at the
  returned address.
\<close>

definition seen :: "'s memory \<Rightarrow> error + nat \<Rightarrow> error + ndarray option" where
  "seen w r = (case r of Inl e \<Rightarrow> Inl e | Inr a \<Rightarrow> Inr (array_at w a))"

text \<open>
  \<open>answers_fixed lib p L R X\<close>: on the identifiers of the batch \<open>X\<close>, at length
  \<open>L\<close> and radius \<open>R\<close>, the answers of the library \<open>lib\<close> do not depend on its
  state; they are the answers \<open>p\<close> gives.
\<close>

definition answers_fixed ::
  "('mol, 's) rdkit_st \<Rightarrow> 'mol rdkit \<Rightarrow> int \<Rightarrow> int \<Rightarrow> string list \<Rightarrow> bool" where
  "answers_fixed lib p L R X \<longleftrightarrow>
     (\<forall>m\<in>set X.
        (\<forall>s. fst (MolFromSmiles_st lib s m) = MolFromSmiles p m) \<and>
        (\<forall>mol s. MolFromSmiles p m = Some mol \<longrightarrow>
           fst (MorganFingerprint_st lib s mol R L) = MorganFingerprint p mol R L))"

text \<open>
  A library with a state for concrete runs: it answers as \<open>chain_lib\<close> does and
  counts its calls.
\<close>

definition counting_lib :: "(string, nat) rdkit_st" where
  "counting_lib =
     \<lparr>MolFromSmiles_st = (\<lambda>s m. (MolFromSmiles chain_lib m, Suc s)),
      MorganFingerprint_st = (\<lambda>s mol r n. (MorganFingerprint chain_lib mol r n, Suc s))\<rparr>"

section \<open>Properties\<close>

subsection \<open>Helper facts\<close>

lemma fold_store_bits:
  "n \<le> length bv \<Longrightarrow> length a = length bv \<Longrightarrow>
   fold (\<lambda>i a. a[i := bv ! i]) [0..<n] a = take n bv @ drop n a"
proof (induction n)
  case 0
  then show ?case by simp
next
  case (Suc n)
  then have n: "n < length bv" by simp
  have "fold (\<lambda>i a. a[i := bv ! i]) [0..<Suc n] a =
        (take n bv @ drop n a)[n := bv ! n]"
    using Suc by simp
  also have "\<dots> = take n bv @ (drop n a)[0 := bv ! n]"
    using n by (simp add: list_update_append)
  also have "(drop n a)[0 := bv ! n] = bv ! n # drop (Suc n) a"
    using n Suc.prems(2) by (simp add: Cons_nth_drop_Suc [symmetric])
  also have "take n bv @ bv ! n # drop (Suc n) a = take (Suc n) bv @ drop (Suc n) a"
    using n by (simp add: take_Suc_conv_app_nth)
  finally show ?case .
qed

lemma length_np_resize: "length (np_resize arr n) = n"
  by (simp add: np_resize_def)

lemma ConvertToNumpyArray_bits: "ConvertToNumpyArray bv arr = bv"
  using fold_store_bits [of "length bv" bv "np_resize arr (length bv)"]
  by (simp add: ConvertToNumpyArray_def length_np_resize)

lemma compute_malformed:
  "\<not> valid_identifier lib m \<Longrightarrow> compute_morgan_fingerprints lib m L R = Inl ArgumentError"
  by (simp add: valid_identifier_def compute_morgan_fingerprints_def
      GetMorganFingerprintAsBitVect_def)

lemma compute_error_source:
  "compute_morgan_fingerprints lib m L R = Inl e \<Longrightarrow>
   (if valid_identifier lib m then \<exists>msg. e = RDKitError msg else e = ArgumentError)"
  by (auto simp: compute_morgan_fingerprints_def GetMorganFingerprintAsBitVect_def Let_def
      valid_identifier_def split: option.splits sum.splits)

lemma compute_accepted:
  "MolFromSmiles lib m = Some mol \<Longrightarrow> MorganFingerprint lib mol R L = Inr bv \<Longrightarrow>
   compute_morgan_fingerprints lib m L R = Inr bv"
  by (simp add: compute_morgan_fingerprints_def GetMorganFingerprintAsBitVect_def
      ConvertToNumpyArray_bits)

lemma compute_rejected:
  "MolFromSmiles lib m = Some mol \<Longrightarrow> MorganFingerprint lib mol R L = Inl msg \<Longrightarrow>
   compute_morgan_fingerprints lib m L R = Inl (RDKitError msg)"
  by (simp add: compute_morgan_fingerprints_def GetMorganFingerprintAsBitVect_def)

lemma compute_returns_bits:
  assumes "returns_bits lib L R m"
  shows "\<exists>bv. compute_morgan_fingerprints lib m L R = Inr bv \<and> int (length bv) = L"
proof -
  from assms obtain mol bv where
    mol: "MolFromSmiles lib m = Some mol" and bv: "MorganFingerprint lib mol R L = Inr bv"
    and len: "int (length bv) = L"
    by (auto simp: returns_bits_def split: option.splits sum.splits)
  from compute_accepted [OF mol bv] len show ?thesis by simp
qed

lemma fing_Inr_iff:
  "fing lib self X = Inr vs \<longleftrightarrow>
   map (\<lambda>m. compute_morgan_fingerprints lib m (length_attr self) (radius self)) X = map Inr vs"
proof (induction X arbitrary: vs)
  case Nil
  then show ?case by auto
next
  case (Cons m ms)
  show ?case
  proof (cases "compute_morgan_fingerprints lib m (length_attr self) (radius self)")
    case (Inl e)
    then show ?thesis by (cases vs) auto
  next
    case (Inr v)
    show ?thesis
    proof (cases "fing lib self ms")
      case (Inl e)
      with Cons.IH have "\<And>ws. map (\<lambda>m. compute_morgan_fingerprints lib m (length_attr self) (radius self)) ms \<noteq> map Inr ws"
        by auto
      with Inl Inr show ?thesis by (cases vs) auto
    next
      case r: (Inr ws)
      with Cons.IH [of ws] Inr show ?thesis by (cases vs) auto
    qed
  qed
qed

lemma fing_fails:
  "m \<in> set X \<Longrightarrow>
   compute_morgan_fingerprints lib m (length_attr self) (radius self) = Inl e' \<Longrightarrow>
   \<exists>e. fing lib self X = Inl e"
  by (induction X) (auto split: sum.splits)

lemma fing_first_failure:
  "fing lib self X = Inl e \<Longrightarrow>
   \<exists>i<length X.
      (\<forall>j<i. \<exists>v. compute_morgan_fingerprints lib (X ! j) (length_attr self) (radius self) = Inr v) \<and>
      compute_morgan_fingerprints lib (X ! i) (length_attr self) (radius self) = Inl e"
proof (induction X)
  case Nil
  then show ?case by simp
next
  case (Cons m ms)
  let ?f = "\<lambda>m. compute_morgan_fingerprints lib m (length_attr self) (radius self)"
  show ?case
  proof (cases "?f m")
    case (Inl e')
    with Cons.prems have "?f ((m # ms) ! 0) = Inl e" by simp
    then show ?thesis by (intro exI [of _ 0]) simp
  next
    case (Inr v)
    with Cons.prems have "fing lib self ms = Inl e" by (simp split: sum.splits)
    from Cons.IH [OF this] obtain i where i: "i < length ms"
      "\<forall>j<i. \<exists>v. ?f (ms ! j) = Inr v" "?f (ms ! i) = Inl e" by blast
    have "\<exists>v. ?f ((m # ms) ! j) = Inr v" if "j < Suc i" for j
      using that Inr i(2) by (cases j) auto
    with i(1,3) show ?thesis by (intro exI [of _ "Suc i"]) simp
  qed
qed

lemma fing_returns_bits:
  assumes "\<forall>m\<in>set X. returns_bits lib (length_attr self) (radius self) m"
  shows "\<exists>vs. fing lib self X = Inr vs \<and> length vs = length X \<and>
           (\<forall>v\<in>set vs. int (length v) = length_attr self)"
  using assms
proof (induction X)
  case Nil
  then show ?case by simp
next
  case (Cons m ms)
  then obtain vs where vs: "fing lib self ms = Inr vs" "length vs = length ms"
    "\<forall>v\<in>set vs. int (length v) = length_attr self" by auto
  from Cons.prems compute_returns_bits [of lib "length_attr self" "radius self" m] obtain bv where
    bv: "compute_morgan_fingerprints lib m (length_attr self) (radius self) = Inr bv"
    "int (length bv) = length_attr self" by auto
  show ?case using vs bv by simp
qed

lemma vstack_Inr: "vstack rows = Inr M \<Longrightarrow> M = rows"
  by (auto simp: vstack_def split: list.splits if_splits)


lemma vstack_same_width:
  "rows \<noteq> [] \<Longrightarrow> \<forall>r\<in>set rows. int (length r) = L \<Longrightarrow> vstack rows = Inr rows"
  by (cases rows) (auto simp: vstack_def list_all_iff)

lemma transform_returns_bits:
  assumes "X \<noteq> []" and "\<forall>m\<in>set X. returns_bits lib (length_attr self) (radius self) m"
  shows "\<exists>M. transform lib self X y = (Inr M, self) \<and> length M = length X \<and>
           (\<forall>row\<in>set M. int (length row) = length_attr self)"
proof -
  from fing_returns_bits [OF assms(2)] obtain vs where
    vs: "fing lib self X = Inr vs" "length vs = length X"
    "\<forall>v\<in>set vs. int (length v) = length_attr self" by blast
  from vs(2) assms(1) have "vs \<noteq> []" by auto
  then have "vstack vs = Inr vs" using vs(3) by (rule vstack_same_width)
  with vs show ?thesis by (simp add: transform_def)
qed

lemmas run_simps = transform_def compute_morgan_fingerprints_def
  GetMorganFingerprintAsBitVect_def chain_lib_def ConvertToNumpyArray_bits vstack_def
  init_def atom_code_def

subsection \<open>Helper facts on the run in memory\<close>

lemma np_zeros_m_arrays:
  "np_zeros_m w n = (a, w') \<Longrightarrow>
   a = length (arrays w) \<and> arrays w' = arrays w @ [Vector (np_zeros n)] \<and> library w' = library w"
  by (auto simp: np_zeros_m_def)

lemma ConvertToNumpyArray_m_fresh:
  assumes "arrays w = xs @ [Vector arr]"
  shows "\<exists>w'. ConvertToNumpyArray_m w bv (length xs) = Inr w' \<and>
           arrays w' = xs @ [Vector bv] \<and> library w' = library w"
  using assms
  by (simp add: ConvertToNumpyArray_m_def vector_at_def array_at_def ConvertToNumpyArray_bits)

lemma store_vector:
  assumes "np_zeros_m w 1 = (arr, w3)"
  shows "\<exists>w4. ConvertToNumpyArray_m w3 bv arr = Inr w4 \<and>
           arr = length (arrays w) \<and> arrays w4 = arrays w @ [Vector bv] \<and> library w4 = library w"
proof -
  from np_zeros_m_arrays [OF assms] have a: "arr = length (arrays w)"
    and w3: "arrays w3 = arrays w @ [Vector (np_zeros 1)]" and l: "library w3 = library w"
    by simp_all
  from ConvertToNumpyArray_m_fresh [OF w3, of bv] a l show ?thesis by auto
qed

lemma compute_m_None:
  assumes "MolFromSmiles_st lib (library w) m = (None, s1)"
  shows "compute_morgan_fingerprints_m lib w m L R = (Inl ArgumentError, w\<lparr>library := s1\<rparr>)"
  using assms by (simp add: compute_morgan_fingerprints_m_def)

lemma compute_m_Inl:
  assumes "MolFromSmiles_st lib (library w) m = (Some mol, s1)"
    and "MorganFingerprint_st lib s1 mol R L = (Inl msg, s2)"
  shows "compute_morgan_fingerprints_m lib w m L R = (Inl (RDKitError msg), w\<lparr>library := s2\<rparr>)"
  using assms by (simp add: compute_morgan_fingerprints_m_def)

lemma compute_m_Inr:
  assumes "MolFromSmiles_st lib (library w) m = (Some mol, s1)"
    and "MorganFingerprint_st lib s1 mol R L = (Inr bv, s2)"
  shows "\<exists>w'. compute_morgan_fingerprints_m lib w m L R = (Inr (length (arrays w)), w') \<and>
           arrays w' = arrays w @ [Vector bv] \<and> library w' = s2"
proof -
  let ?w2 = "w\<lparr>library := s2\<rparr>"
  obtain arr w3 where z: "np_zeros_m ?w2 1 = (arr, w3)" by (cases "np_zeros_m ?w2 1")
  from store_vector [OF z, of bv] obtain w4 where
    c: "ConvertToNumpyArray_m w3 bv arr = Inr w4" and a: "arr = length (arrays w)"
    and w4: "arrays w4 = arrays w @ [Vector bv]" "library w4 = s2" by auto
  have "compute_morgan_fingerprints_m lib w m L R = (Inr arr, w4)"
    using assms z c by (simp add: compute_morgan_fingerprints_m_def)
  with a w4 show ?thesis by simp
qed

lemma compute_m_frame:
  assumes "compute_morgan_fingerprints_m lib w m L R = (r, w')"
  shows "\<exists>ys. arrays w' = arrays w @ ys"
proof -
  obtain molecule s1 where p1: "MolFromSmiles_st lib (library w) m = (molecule, s1)"
    by (cases "MolFromSmiles_st lib (library w) m")
  show ?thesis
  proof (cases molecule)
    case None
    with compute_m_None [of lib w m s1 L R] p1 assms show ?thesis by auto
  next
    case (Some mol)
    obtain res s2 where p2: "MorganFingerprint_st lib s1 mol R L = (res, s2)"
      by (cases "MorganFingerprint_st lib s1 mol R L")
    show ?thesis
    proof (cases res)
      case (Inl msg)
      with compute_m_Inl [of lib w m mol s1 R L msg s2] p1 p2 Some assms show ?thesis by auto
    next
      case (Inr bv)
      with compute_m_Inr [of lib w m mol s1 R L bv s2] p1 p2 Some assms show ?thesis by auto
    qed
  qed
qed

lemma compute_m_refines:
  assumes a1: "\<forall>s. fst (MolFromSmiles_st lib s m) = MolFromSmiles p m"
    and a2: "\<forall>mol s. MolFromSmiles p m = Some mol \<longrightarrow>
               fst (MorganFingerprint_st lib s mol R L) = MorganFingerprint p mol R L"
    and run: "compute_morgan_fingerprints_m lib w m L R = (r, w')"
  shows "case compute_morgan_fingerprints p m L R of
           Inl e \<Rightarrow> r = Inl e
         | Inr v \<Rightarrow> r = Inr (length (arrays w)) \<and> arrays w' = arrays w @ [Vector v]"
proof -
  obtain molecule s1 where p1: "MolFromSmiles_st lib (library w) m = (molecule, s1)"
    by (cases "MolFromSmiles_st lib (library w) m")
  with a1 have mol: "MolFromSmiles p m = molecule" by (metis fst_conv)
  show ?thesis
  proof (cases molecule)
    case None
    from compute_m_None [of lib w m s1 L R] p1 None run have "r = Inl ArgumentError" by simp
    moreover from mol None have "compute_morgan_fingerprints p m L R = Inl ArgumentError"
      by (simp add: compute_malformed valid_identifier_def)
    ultimately show ?thesis by simp
  next
    case (Some ml)
    obtain res s2 where p2: "MorganFingerprint_st lib s1 ml R L = (res, s2)"
      by (cases "MorganFingerprint_st lib s1 ml R L")
    with a2 mol Some have res: "MorganFingerprint p ml R L = res" by (metis fst_conv)
    from mol Some have pm: "MolFromSmiles p m = Some ml" by simp
    show ?thesis
    proof (cases res)
      case (Inl msg)
      from compute_m_Inl [of lib w m ml s1 R L msg s2] p1 p2 Some Inl run
      have "r = Inl (RDKitError msg)" by simp
      moreover from compute_rejected [OF pm] res Inl
      have "compute_morgan_fingerprints p m L R = Inl (RDKitError msg)" by simp
      ultimately show ?thesis by simp
    next
      case (Inr bv)
      from compute_m_Inr [of lib w m ml s1 R L bv s2] p1 p2 Some Inr run
      have "r = Inr (length (arrays w)) \<and> arrays w' = arrays w @ [Vector bv]" by auto
      moreover from compute_accepted [OF pm] res Inr
      have "compute_morgan_fingerprints p m L R = Inr bv" by simp
      ultimately show ?thesis by simp
    qed
  qed
qed

lemma upt_first: "[n..<Suc (n + k)] = n # [Suc n..<Suc (n + k)]"
  using upt_conv_Cons [of n "Suc (n + k)"] by (simp del: upt_Suc)

lemma fing_m_frame:
  "fing_m lib w self X = (r, w') \<Longrightarrow> \<exists>ys. arrays w' = arrays w @ ys"
proof (induction X arbitrary: w r w')
  case Nil
  then show ?case by simp
next
  case (Cons m ms)
  obtain r1 w1 where c: "compute_morgan_fingerprints_m lib w m (length_attr self) (radius self) = (r1, w1)"
    by (cases "compute_morgan_fingerprints_m lib w m (length_attr self) (radius self)")
  from compute_m_frame [OF c] obtain ys where ys: "arrays w1 = arrays w @ ys" ..
  show ?case
  proof (cases r1)
    case (Inl e)
    with Cons.prems c ys show ?thesis by auto
  next
    case (Inr a)
    obtain r2 w2 where f: "fing_m lib w1 self ms = (r2, w2)" by (cases "fing_m lib w1 self ms")
    from Cons.IH [OF f] obtain zs where zs: "arrays w2 = arrays w1 @ zs" ..
    from Cons.prems c Inr f have "w' = w2" by (auto split: sum.splits)
    with ys zs show ?thesis by simp
  qed
qed

lemma fing_m_refines:
  assumes "answers_fixed lib p (length_attr self) (radius self) X"
    and "fing_m lib w self X = (r, w')"
  shows "case fing p self X of
           Inl e \<Rightarrow> r = Inl e
         | Inr vs \<Rightarrow> r = Inr [length (arrays w)..<length (arrays w) + length vs] \<and>
                     arrays w' = arrays w @ map Vector vs"
  using assms
proof (induction X arbitrary: w r w')
  case Nil
  then show ?case by simp
next
  case (Cons m ms)
  let ?L = "length_attr self" and ?R = "radius self"
  from Cons.prems(1) have
    a1: "\<forall>s. fst (MolFromSmiles_st lib s m) = MolFromSmiles p m" and
    a2: "\<forall>mol s. MolFromSmiles p m = Some mol \<longrightarrow>
               fst (MorganFingerprint_st lib s mol ?R ?L) = MorganFingerprint p mol ?R ?L" and
    rest: "answers_fixed lib p ?L ?R ms"
    by (simp_all add: answers_fixed_def)
  obtain r1 w1 where c: "compute_morgan_fingerprints_m lib w m ?L ?R = (r1, w1)"
    by (cases "compute_morgan_fingerprints_m lib w m ?L ?R")
  note cr = compute_m_refines [OF a1 a2 c]
  show ?case
  proof (cases "compute_morgan_fingerprints p m ?L ?R")
    case (Inl e)
    with cr Cons.prems(2) c show ?thesis by auto
  next
    case (Inr v)
    with cr have r1: "r1 = Inr (length (arrays w))" and w1: "arrays w1 = arrays w @ [Vector v]"
      by simp_all
    obtain r2 w2 where f: "fing_m lib w1 self ms = (r2, w2)" by (cases "fing_m lib w1 self ms")
    note ih = Cons.IH [OF rest f]
    show ?thesis
    proof (cases "fing p self ms")
      case (Inl e)
      with ih Inr Cons.prems(2) c r1 f show ?thesis by auto
    next
      case fr: (Inr vs)
      with ih have r2: "r2 = Inr [length (arrays w1)..<length (arrays w1) + length vs]"
        and w2: "arrays w2 = arrays w1 @ map Vector vs" by simp_all
      from Cons.prems(2) c r1 f r2
      have r: "r = Inr (length (arrays w) # [length (arrays w1)..<length (arrays w1) + length vs])"
        and w': "w' = w2" by auto
      from w1 have "length (arrays w1) = Suc (length (arrays w))" by simp
      with upt_first [of "length (arrays w)" "length vs"]
      have "[length (arrays w)..<length (arrays w) + length (v # vs)]
          = length (arrays w) # [length (arrays w1)..<length (arrays w1) + length vs]"
        by (simp del: upt_Suc)
      with r have "r = Inr [length (arrays w)..<length (arrays w) + length (v # vs)]" by simp
      moreover from w1 w2 w' have "arrays w' = arrays w @ map Vector (v # vs)" by simp
      moreover from Inr fr have "fing p self (m # ms) = Inr (v # vs)" by simp
      ultimately show ?thesis by simp
    qed
  qed
qed

lemma those_map_Some: "those (map Some xs) = Some xs"
  by (induction xs) simp_all

lemma vector_at_rows:
  assumes "arrays w = pre @ map Vector vs"
  shows "map (vector_at w) [length pre..<length pre + length vs] = map Some vs"
proof (rule nth_equalityI)
  show "length (map (vector_at w) [length pre..<length pre + length vs]) = length (map Some vs)"
    by simp
next
  fix i assume "i < length (map (vector_at w) [length pre..<length pre + length vs])"
  then have i: "i < length vs" by simp
  then have "vector_at w (length pre + i) = Some (vs ! i)"
    using assms by (simp add: vector_at_def array_at_def nth_append)
  with i show "map (vector_at w) [length pre..<length pre + length vs] ! i = map Some vs ! i"
    by simp
qed

lemma vstack_m_frame:
  "vstack_m w tup = (r, w') \<Longrightarrow> library w' = library w \<and> (\<exists>ys. arrays w' = arrays w @ ys)"
  by (auto simp: vstack_m_def split: option.splits sum.splits)

lemma vstack_m_rows:
  assumes "those (map (vector_at w) tup) = Some rows"
  shows "vstack_m w tup =
           (case vstack rows of
              Inl e \<Rightarrow> (Inl e, w)
            | Inr M \<Rightarrow> (Inr (length (arrays w)), w\<lparr>arrays := arrays w @ [Matrix M]\<rparr>))"
  using assms by (simp add: vstack_m_def)

lemma transform_m_raise:
  "fing_m lib w self X = (Inl e, w1) \<Longrightarrow> transform_m lib w self X y = ((Inl e, self), w1)"
  by (simp add: transform_m_def)

lemma transform_m_stack:
  "fing_m lib w self X = (Inr fs, w1) \<Longrightarrow> vstack_m w1 fs = (r, w2) \<Longrightarrow>
   transform_m lib w self X y = ((r, self), w2)"
  by (simp add: transform_m_def)

lemma transform_m_frame:
  assumes "transform_m lib w self X y = ((r, s), w')"
  shows "s = self \<and> (\<exists>ys. arrays w' = arrays w @ ys)"
proof -
  obtain r1 w1 where f: "fing_m lib w self X = (r1, w1)" by (cases "fing_m lib w self X")
  from fing_m_frame [OF f] obtain ys where ys: "arrays w1 = arrays w @ ys" ..
  show ?thesis
  proof (cases r1)
    case (Inl e)
    with transform_m_raise [of lib w self X e w1 y] f assms ys show ?thesis by auto
  next
    case (Inr fs)
    obtain r2 w2 where v: "vstack_m w1 fs = (r2, w2)" by (cases "vstack_m w1 fs")
    from vstack_m_frame [OF v] obtain zs where zs: "arrays w2 = arrays w1 @ zs" by blast
    from transform_m_stack [of lib w self X fs w1 r2 w2 y] f Inr v assms
    have "s = self" "w' = w2" by simp_all
    with ys zs show ?thesis by simp
  qed
qed

lemma transform_m_refines:
  assumes "answers_fixed lib p (length_attr self) (radius self) X"
    and "transform_m lib w self X y = ((r, s), w')"
  shows "case fst (transform p self X y') of
           Inl e \<Rightarrow> r = Inl e
         | Inr M \<Rightarrow> \<exists>a. r = Inr a \<and> length (arrays w) \<le> a \<and> array_at w' a = Some (Matrix M)"
proof -
  obtain r1 w1 where f: "fing_m lib w self X = (r1, w1)" by (cases "fing_m lib w self X")
  note fr = fing_m_refines [OF assms(1) f]
  show ?thesis
  proof (cases "fing p self X")
    case (Inl e)
    with fr have "r1 = Inl e" by simp
    with transform_m_raise [of lib w self X e w1 y] f assms(2) have "r = Inl e" by simp
    moreover from Inl have "fst (transform p self X y') = Inl e" by (simp add: transform_def)
    ultimately show ?thesis by simp
  next
    case (Inr vs)
    let ?fs = "[length (arrays w)..<length (arrays w) + length vs]"
    from Inr fr have r1: "r1 = Inr ?fs"
      and w1: "arrays w1 = arrays w @ map Vector vs" by simp_all
    from vector_at_rows [OF w1] have rows: "those (map (vector_at w1) ?fs) = Some vs"
      by (simp add: those_map_Some)
    from Inr have pure: "fst (transform p self X y') = vstack vs" by (simp add: transform_def)
    show ?thesis
    proof (cases "vstack vs")
      case (Inl e)
      with vstack_m_rows [OF rows] have "vstack_m w1 ?fs = (Inl e, w1)" by simp
      from transform_m_stack [OF _ this, of lib w self X y] f r1 assms(2) have "r = Inl e" by simp
      with pure Inl show ?thesis by simp
    next
      case vr: (Inr M)
      let ?w2 = "w1\<lparr>arrays := arrays w1 @ [Matrix M]\<rparr>"
      from vr vstack_m_rows [OF rows] have "vstack_m w1 ?fs = (Inr (length (arrays w1)), ?w2)"
        by simp
      from transform_m_stack [OF _ this, of lib w self X y] f r1 assms(2)
      have r: "r = Inr (length (arrays w1))" and w': "w' = ?w2" by simp_all
      have "array_at ?w2 (length (arrays w1)) = Some (Matrix M)" by (simp add: array_at_def)
      moreover from w1 have "length (arrays w) \<le> length (arrays w1)" by simp
      ultimately show ?thesis using r w' pure vr by simp
    qed
  qed
qed

lemma array_at_frame:
  "arrays w' = arrays w @ ys \<Longrightarrow> a < length (arrays w) \<Longrightarrow> array_at w' a = array_at w a"
  by (simp add: array_at_def nth_append)

lemma array_at_Some_less: "array_at w a = Some x \<Longrightarrow> a < length (arrays w)"
  by (simp add: array_at_def split: if_splits)

lemma answers_fixed_counting:
  "answers_fixed counting_lib chain_lib L R X"
  by (simp add: answers_fixed_def counting_lib_def)

subsection \<open>Malformed identifiers\<close>

text \<open>
  C1, as amended. For every batch that contains a malformed identifier (one the parser
  returns no molecule for), \<^verbatim>\<open>transform\<close> fails, returns no matrix, partial or
  whole, and leaves the instance as it was. The error is the one raised for the first
  element that fails, every element before it having been converted: it is
  \<open>ArgumentError\<close>, raised when the fingerprint routine receives \<^verbatim>\<open>None\<close>,
  when that element is malformed, and the fingerprint routine's own error when that
  element is valid. It carries neither the element nor its position.
\<close>

theorem transform_malformed_fails:
  assumes "m \<in> set X" and "\<not> valid_identifier lib m"
  shows "\<exists>i e. i < length X \<and>
           (\<forall>j<i. \<exists>v. compute_morgan_fingerprints lib (X ! j) (length_attr self) (radius self)
                          = Inr v) \<and>
           compute_morgan_fingerprints lib (X ! i) (length_attr self) (radius self) = Inl e \<and>
           transform lib self X y = (Inl e, self) \<and>
           (if valid_identifier lib (X ! i) then \<exists>msg. e = RDKitError msg
            else e = ArgumentError)"
proof -
  let ?f = "\<lambda>m. compute_morgan_fingerprints lib m (length_attr self) (radius self)"
  from fing_fails [OF assms(1) compute_malformed [OF assms(2)]]
  obtain e where e: "fing lib self X = Inl e" by blast
  from fing_first_failure [OF e] obtain i where
    i: "i < length X" "\<forall>j<i. \<exists>v. ?f (X ! j) = Inr v" "?f (X ! i) = Inl e" by blast
  from e have t: "transform lib self X y = (Inl e, self)" by (simp add: transform_def)
  from i t compute_error_source [OF i(3)] show ?thesis by blast
qed

theorem transform_malformed_fails_witness:
  "''CX'' \<in> set [''CN'', ''CX'', ''O''] \<and> \<not> valid_identifier chain_lib ''CX'' \<and>
   (\<exists>i e. i < length [''CN'', ''CX'', ''O''] \<and>
      compute_morgan_fingerprints chain_lib ([''CN'', ''CX'', ''O''] ! i) 8 2 = Inl e \<and>
      transform chain_lib \<lparr>length_attr = 8, radius = 2\<rparr> [''CN'', ''CX'', ''O''] (None :: unit option)
        = (Inl e, \<lparr>length_attr = 8, radius = 2\<rparr>)) \<and>
   transform chain_lib \<lparr>length_attr = 8, radius = 2\<rparr> [''CN'', ''CX'', ''O''] (None :: unit option)
     = (Inl ArgumentError, \<lparr>length_attr = 8, radius = 2\<rparr>)"
proof -
  have a: "''CX'' \<in> set [''CN'', ''CX'', ''O'']" by simp
  have b: "\<not> valid_identifier chain_lib ''CX''"
    by (simp add: valid_identifier_def chain_lib_def)
  have c: "transform chain_lib \<lparr>length_attr = 8, radius = 2\<rparr> [''CN'', ''CX'', ''O''] (None :: unit option)
     = (Inl ArgumentError, \<lparr>length_attr = 8, radius = 2\<rparr>)"
    by code_simp
  from transform_malformed_fails [OF a b, of "\<lparr>length_attr = 8, radius = 2\<rparr>" "None :: unit option"]
  have "\<exists>i e. i < length [''CN'', ''CX'', ''O''] \<and>
      compute_morgan_fingerprints chain_lib ([''CN'', ''CX'', ''O''] ! i) 8 2 = Inl e \<and>
      transform chain_lib \<lparr>length_attr = 8, radius = 2\<rparr> [''CN'', ''CX'', ''O''] (None :: unit option)
        = (Inl e, \<lparr>length_attr = 8, radius = 2\<rparr>)"
    by auto
  with a b c show ?thesis by blast
qed

text \<open>
  C1, as stated, fails: on the batch of the specification's failure scenario the call
  raises \<open>ArgumentError\<close>, not a \<open>DecodeError\<close> that refers to index 1.
\<close>

theorem transform_malformed_counterexample:
  "\<not> valid_identifier chain_lib ''not-a-valid-identifier'' \<and>
   fst (transform chain_lib (init None None) [''C'', ''not-a-valid-identifier''] (None :: unit option))
     = Inl ArgumentError \<and>
   fst (transform chain_lib (init None None) [''C'', ''not-a-valid-identifier''] (None :: unit option))
     \<noteq> Inl (DecodeError 1 ''not-a-valid-identifier'')"
  by (simp add: run_simps valid_identifier_def)

subsection \<open>Shape\<close>

text \<open>
  C2, as amended. For every non-empty batch of \<open>N\<close> valid identifiers for each of
  which the fingerprint routine returns \<open>L\<close> bits at the configured length \<open>L\<close>
  and radius, \<^verbatim>\<open>transform\<close> returns a rectangular matrix of shape \<open>(N, L)\<close>:
  \<open>N\<close> rows of \<open>L\<close> entries each.
\<close>

theorem transform_shape:
  assumes "X \<noteq> []"
    and "\<forall>m\<in>set X. returns_bits lib (length_attr self) (radius self) m"
  shows "\<exists>M. fst (transform lib self X y) = Inr M \<and> length M = length X \<and>
           (\<forall>row\<in>set M. int (length row) = length_attr self)"
proof -
  from transform_returns_bits [OF assms, of y] obtain M where
    "transform lib self X y = (Inr M, self)" "length M = length X"
    "\<forall>row\<in>set M. int (length row) = length_attr self" by blast
  then show ?thesis by simp
qed

theorem transform_shape_witness:
  "[''C'', ''CNO'', ''OC''] \<noteq> [] \<and>
   list_all (returns_bits chain_lib 8 2) [''C'', ''CNO'', ''OC''] \<and>
   (\<exists>M. fst (transform chain_lib \<lparr>length_attr = 8, radius = 2\<rparr> [''C'', ''CNO'', ''OC'']
            (None :: unit option)) = Inr M \<and>
        length M = 3 \<and> list_all (\<lambda>row. int (length row) = 8) M)"
proof -
  have v: "\<forall>m\<in>set [''C'', ''CNO'', ''OC'']. returns_bits chain_lib 8 2 m"
    by (simp add: returns_bits_def chain_lib_def)
  from transform_shape [of "[''C'', ''CNO'', ''OC'']" chain_lib "\<lparr>length_attr = 8, radius = 2\<rparr>"
      "None :: unit option"]
  show ?thesis using v by (auto simp: list_all_iff)
qed

text \<open>
  C2, as stated, fails on the batch of no identifiers: the stacking raises, and no
  matrix of shape \<open>(0, 256)\<close> is returned.
\<close>

theorem transform_shape_counterexample:
  "fst (transform chain_lib (init None None) [] (None :: unit option)) = Inl ValueError \<and>
   fst (transform chain_lib (init None None) [] (None :: unit option)) \<noteq> Inr []"
  by (simp add: transform_def vstack_def)

subsection \<open>The empty batch, the defaults and fitting\<close>

text \<open>
  C9. On the empty batch \<^verbatim>\<open>transform\<close> fails: nothing is converted, and the
  stacking of no rows raises \<open>ValueError\<close>; no empty matrix is returned. This holds
  for every library and every configuration.
\<close>

theorem transform_empty_batch_fails:
  "transform lib self [] y = (Inl ValueError, self)"
  by (simp add: transform_def vstack_def)

text \<open>
  C10. A transformer constructed with no arguments has length 256 and radius 4.
\<close>

theorem init_defaults:
  "init None None = \<lparr>length_attr = 256, radius = 4\<rparr>"
  by (simp add: init_def)

text \<open>
  C5. For every input \<open>X\<close> of any type and every \<open>y\<close>, \<^verbatim>\<open>fit\<close> returns the
  instance it was called on and leaves it as it was, length and radius included; it
  computes nothing from \<open>X\<close>, and it has no failing branch.
\<close>

theorem fit_returns_self:
  "fst (fit self X y) = self \<and> snd (fit self X y) = self \<and>
   length_attr (snd (fit self X y)) = length_attr self \<and>
   radius (snd (fit self X y)) = radius self"
  by (simp add: fit_def)

subsection \<open>Determinism and order\<close>

text \<open>
  C3. Two calls of \<^verbatim>\<open>transform\<close> on the same instance with the same batch return
  the same bits. This is stated on the run in memory, with a library that has a state:
  when the library's answers for the identifiers of the batch, at the instance's length
  and radius, do not depend on the library's state, the first call leaves the instance as
  it found it, what the caller sees of the second result is what it sees of the first
  (the same error, or a matrix of the same contents), which is the result of
  \<^verbatim>\<open>transform\<close> on contents; the second matrix is a new array, and the first
  one still holds its contents after the second call. The notebook's code adds no state
  of its own; whether the library's answers depend on a state of the library is not
  decided by the notebook, and is the hypothesis.
\<close>

theorem transform_twice_same_bits:
  assumes "answers_fixed lib p (length_attr self) (radius self) X"
    and "transform_m lib w self X y = ((r1, s1), w1)"
    and "transform_m lib w1 s1 X y = ((r2, s2), w2)"
  shows "s1 = self \<and> s2 = self \<and>
         seen w1 r1 = (case fst (transform p self X y) of
                         Inl e \<Rightarrow> Inl e
                       | Inr M \<Rightarrow> Inr (Some (Matrix M))) \<and>
         seen w2 r2 = seen w1 r1 \<and>
         seen w2 r1 = seen w1 r1 \<and>
         (\<forall>a. r1 = Inr a \<longrightarrow> r2 \<noteq> Inr a)"
proof -
  from transform_m_frame [OF assms(2)] have s1: "s1 = self" by simp
  from transform_m_frame [OF assms(3)] s1 obtain ys where
    s2: "s2 = self" and ys: "arrays w2 = arrays w1 @ ys" by auto
  note c1 = transform_m_refines [OF assms(1,2), of y]
  note c2 = transform_m_refines [OF assms(1) assms(3) [unfolded s1], of y]
  show ?thesis
  proof (cases "fst (transform p self X y)")
    case (Inl e)
    with c1 c2 have "r1 = Inl e" "r2 = Inl e" by simp_all
    with s1 s2 Inl show ?thesis by (simp add: seen_def)
  next
    case (Inr M)
    with c1 obtain a1 where a1: "r1 = Inr a1" "array_at w1 a1 = Some (Matrix M)" by auto
    from Inr c2 obtain a2 where a2: "r2 = Inr a2" "length (arrays w1) \<le> a2"
      "array_at w2 a2 = Some (Matrix M)" by auto
    from a1(2) have lt: "a1 < length (arrays w1)" by (rule array_at_Some_less)
    from array_at_frame [OF ys lt] have "array_at w2 a1 = array_at w1 a1" .
    with s1 s2 Inr a1 a2 lt show ?thesis by (auto simp: seen_def)
  qed
qed

theorem transform_twice_same_bits_witness:
  "answers_fixed counting_lib chain_lib 4 4 [''CO''] \<and>
   transform_m counting_lib \<lparr>library = 0, arrays = []\<rparr> \<lparr>length_attr = 4, radius = 4\<rparr>
       [''CO''] (None :: unit option)
     = ((Inr 1, \<lparr>length_attr = 4, radius = 4\<rparr>),
        \<lparr>library = 2,
         arrays = [Vector [True, False, True, False], Matrix [[True, False, True, False]]]\<rparr>) \<and>
   transform_m counting_lib
       \<lparr>library = 2,
        arrays = [Vector [True, False, True, False], Matrix [[True, False, True, False]]]\<rparr>
       \<lparr>length_attr = 4, radius = 4\<rparr> [''CO''] (None :: unit option)
     = ((Inr 3, \<lparr>length_attr = 4, radius = 4\<rparr>),
        \<lparr>library = 4,
         arrays = [Vector [True, False, True, False], Matrix [[True, False, True, False]],
                   Vector [True, False, True, False], Matrix [[True, False, True, False]]]\<rparr>) \<and>
   seen \<lparr>library = 4::nat,
         arrays = [Vector [True, False, True, False], Matrix [[True, False, True, False]],
                   Vector [True, False, True, False], Matrix [[True, False, True, False]]]\<rparr>
        (Inr 3)
     = seen \<lparr>library = 2::nat,
         arrays = [Vector [True, False, True, False], Matrix [[True, False, True, False]]]\<rparr>
        (Inr 1) \<and>
   seen \<lparr>library = 2::nat,
         arrays = [Vector [True, False, True, False], Matrix [[True, False, True, False]]]\<rparr>
        (Inr 1)
     = Inr (Some (Matrix [[True, False, True, False]]))"
proof -
  let ?self = "\<lparr>length_attr = 4, radius = 4\<rparr>"
  let ?w0 = "\<lparr>library = 0::nat, arrays = []\<rparr>"
  let ?w1 = "\<lparr>library = 2::nat,
         arrays = [Vector [True, False, True, False], Matrix [[True, False, True, False]]]\<rparr>"
  let ?w2 = "\<lparr>library = 4::nat,
         arrays = [Vector [True, False, True, False], Matrix [[True, False, True, False]],
                   Vector [True, False, True, False], Matrix [[True, False, True, False]]]\<rparr>"
  have h: "answers_fixed counting_lib chain_lib (length_attr ?self) (radius ?self) [''CO'']"
    by (rule answers_fixed_counting)
  have c1: "transform_m counting_lib ?w0 ?self [''CO''] (None :: unit option)
              = ((Inr 1, ?self), ?w1)"
    by code_simp
  have c2: "transform_m counting_lib ?w1 ?self [''CO''] (None :: unit option)
              = ((Inr 3, ?self), ?w2)"
    by code_simp
  have s: "seen ?w1 (Inr 1) = Inr (Some (Matrix [[True, False, True, False]]))"
    by (simp add: seen_def array_at_def)
  from transform_twice_same_bits [OF h c1 c2] have "seen ?w2 (Inr 3) = seen ?w1 (Inr 1)"
    by simp
  with h c1 c2 s show ?thesis by simp
qed

text \<open>
  C4. Whenever \<^verbatim>\<open>transform\<close> returns a matrix, the matrix has one row for each
  element of the batch, and its \<open>i\<close>-th row is the feature vector that
  \<^verbatim>\<open>compute_morgan_fingerprints\<close> returns for the \<open>i\<close>-th element under the
  instance's length and radius.
\<close>

theorem transform_rows_in_order:
  assumes "fst (transform lib self X y) = Inr M"
  shows "length M = length X \<and>
         (\<forall>i<length X. compute_morgan_fingerprints lib (X ! i) (length_attr self) (radius self)
                          = Inr (M ! i))"
proof -
  let ?f = "\<lambda>m. compute_morgan_fingerprints lib m (length_attr self) (radius self)"
  from assms obtain vs where vs: "fing lib self X = Inr vs" "vstack vs = Inr M"
    by (auto simp: transform_def split: sum.splits)
  from vs(2) have "M = vs" by (rule vstack_Inr)
  with vs(1) have eq: "map ?f X = map Inr M" by (simp add: fing_Inr_iff)
  then have len: "length M = length X" by (metis length_map)
  have "?f (X ! i) = Inr (M ! i)" if "i < length X" for i
  proof -
    from that have "?f (X ! i) = map ?f X ! i" by simp
    also have "\<dots> = map Inr M ! i" by (simp only: eq)
    also have "\<dots> = Inr (M ! i)" using that len by simp
    finally show ?thesis .
  qed
  with len show ?thesis by blast
qed

theorem transform_rows_in_order_witness:
  "fst (transform chain_lib \<lparr>length_attr = 4, radius = 2\<rparr> [''O'', ''N''] (None :: unit option))
     = Inr [[True, False, False, False], [False, False, False, True]] \<and>
   compute_morgan_fingerprints chain_lib ''O'' 4 2 = Inr [True, False, False, False] \<and>
   compute_morgan_fingerprints chain_lib ''N'' 4 2 = Inr [False, False, False, True]"
proof -
  have r: "fst (transform chain_lib \<lparr>length_attr = 4, radius = 2\<rparr> [''O'', ''N''] (None :: unit option))
     = Inr [[True, False, False, False], [False, False, False, True]]"
    by (simp add: run_simps upt_rec [of _ "numeral _"] upt_rec [of _ "Suc _"])
  from transform_rows_in_order [OF r] have rows:
    "\<forall>i<2. compute_morgan_fingerprints chain_lib ([''O'', ''N''] ! i) 4 2
        = Inr ([[True, False, False, False], [False, False, False, True]] ! i)"
    by simp
  from rows [rule_format, of 0] rows [rule_format, of 1] r show ?thesis by simp
qed

subsection \<open>The configuration\<close>

text \<open>
  C6, as amended. The constructor stores whatever length and radius it is given,
  non-positive ones included, and raises nothing. \<^verbatim>\<open>transform\<close> makes no check
  of its own; it hands the length and the radius to the fingerprint routine at call
  time. When the routine rejects them for the first element of the batch, a valid
  identifier, \<^verbatim>\<open>transform\<close> raises the routine's error at call time, not a
  \<open>ConfigurationError\<close>, and leaves the instance as it was. When the routine
  returns, for each element of a non-empty batch, as many bits as the length says,
  \<^verbatim>\<open>transform\<close> returns the matrix, whatever the sign of the radius.
\<close>

theorem transform_passes_configuration_unchecked:
  "init (Some l) (Some r) = \<lparr>length_attr = l, radius = r\<rparr> \<and>
   (MolFromSmiles lib m = Some mol \<and> MorganFingerprint lib mol r l = Inl msg \<longrightarrow>
      transform lib (init (Some l) (Some r)) (m # ms) y
        = (Inl (RDKitError msg), init (Some l) (Some r))) \<and>
   (X \<noteq> [] \<and> (\<forall>m\<in>set X. returns_bits lib l r m) \<longrightarrow>
      (\<exists>M. transform lib (init (Some l) (Some r)) X y = (Inr M, init (Some l) (Some r)) \<and>
           length M = length X \<and> (\<forall>row\<in>set M. int (length row) = l)))"
proof -
  let ?self = "init (Some l) (Some r)"
  have i: "?self = \<lparr>length_attr = l, radius = r\<rparr>" by (simp add: init_def)
  have rej: "transform lib ?self (m # ms) y = (Inl (RDKitError msg), ?self)"
    if "MolFromSmiles lib m = Some mol" "MorganFingerprint lib mol r l = Inl msg"
    using compute_rejected [OF that] by (simp add: transform_def i)
  have acc: "\<exists>M. transform lib ?self X y = (Inr M, ?self) \<and>
           length M = length X \<and> (\<forall>row\<in>set M. int (length row) = l)"
    if "X \<noteq> []" "\<forall>m\<in>set X. returns_bits lib l r m"
    using transform_returns_bits [of X lib ?self y] that by (simp add: i)
  from i rej acc show ?thesis by blast
qed

theorem transform_passes_configuration_unchecked_witness:
  "init (Some (- 4)) (Some 0) = \<lparr>length_attr = - 4, radius = 0\<rparr> \<and>
   MolFromSmiles chain_lib ''C'' = Some ''C'' \<and>
   MorganFingerprint chain_lib ''C'' 0 (- 4) = Inl ''OverflowError'' \<and>
   transform chain_lib (init (Some (- 4)) (Some 0)) [''C'', ''N''] (None :: unit option)
     = (Inl (RDKitError ''OverflowError''), init (Some (- 4)) (Some 0))"
proof -
  have a: "MolFromSmiles chain_lib ''C'' = Some ''C''" by (simp add: chain_lib_def)
  have b: "MorganFingerprint chain_lib ''C'' 0 (- 4) = Inl ''OverflowError''"
    by (simp add: chain_lib_def)
  have i: "init (Some (- 4)) (Some 0) = \<lparr>length_attr = - 4, radius = 0\<rparr>"
    by (simp add: init_def)
  from transform_passes_configuration_unchecked
    [of "- 4" 0 chain_lib "''C''" "''C''" "''OverflowError''" "[''N'']" "None :: unit option" "[]"]
    a b
  have "transform chain_lib (init (Some (- 4)) (Some 0)) [''C'', ''N''] (None :: unit option)
     = (Inl (RDKitError ''OverflowError''), init (Some (- 4)) (Some 0))"
    by blast
  with i a b show ?thesis by blast
qed

text \<open>
  C6, as stated, fails: with the radius 0, which is not positive, and a library that
  accepts it, \<^verbatim>\<open>transform\<close> on a batch of one valid identifier reads the
  configuration, raises nothing and returns the matrix.
\<close>

theorem transform_configuration_error_counterexample:
  "radius (init (Some 4) (Some 0)) \<le> 0 \<and>
   fst (transform chain_lib (init (Some 4) (Some 0)) [''C''] (None :: unit option))
     = Inr [[False, False, True, False]] \<and>
   fst (transform chain_lib (init (Some 4) (Some 0)) [''C''] (None :: unit option))
     \<noteq> Inl ConfigurationError"
proof -
  have "fst (transform chain_lib (init (Some 4) (Some 0)) [''C''] (None :: unit option))
     = Inr [[False, False, True, False]]"
    by code_simp
  then show ?thesis by (simp add: init_def)
qed

text \<open>
  C7. On the run in memory: \<^verbatim>\<open>transform\<close> leaves the instance, its length and
  radius included, as it found it, and every array that is in memory when it is called
  holds the same contents when it returns, whether it returns a matrix or raises. So
  when the length is set to \<open>L2\<close> after a first call and \<^verbatim>\<open>transform\<close> is
  called again, every array the first call left, the matrix it returned included, is
  unchanged. When moreover the library's answers for the batch do not depend on its state
  and the routine returns, for each identifier of a non-empty batch, as many bits as
  asked at both lengths, the first call returns a matrix of rows of the earlier length,
  the second call returns another array, a matrix of rows of \<open>L2\<close> entries, and the
  first matrix still has its rows of the earlier length.
\<close>

theorem transform_configuration_isolation:
  assumes "transform_m lib w self X y = ((r1, s1), w1)"
    and "transform_m lib w1 (s1\<lparr>length_attr := L2\<rparr>) X y = ((r2, s2), w2)"
  shows "s1 = self \<and> s2 = self\<lparr>length_attr := L2\<rparr> \<and>
         (\<forall>a<length (arrays w). array_at w1 a = array_at w a) \<and>
         (\<forall>a<length (arrays w1). array_at w2 a = array_at w1 a) \<and>
         (answers_fixed lib p (length_attr self) (radius self) X \<and>
          answers_fixed lib p L2 (radius self) X \<and> X \<noteq> [] \<and>
          (\<forall>m\<in>set X. returns_bits p (length_attr self) (radius self) m \<and>
                      returns_bits p L2 (radius self) m) \<longrightarrow>
          (\<exists>a1 a2 M1 M2.
             r1 = Inr a1 \<and> r2 = Inr a2 \<and> a1 \<noteq> a2 \<and>
             array_at w1 a1 = Some (Matrix M1) \<and>
             array_at w2 a1 = Some (Matrix M1) \<and>
             array_at w2 a2 = Some (Matrix M2) \<and>
             length M1 = length X \<and> (\<forall>row\<in>set M1. int (length row) = length_attr self) \<and>
             length M2 = length X \<and> (\<forall>row\<in>set M2. int (length row) = L2)))"
proof -
  let ?s2 = "self\<lparr>length_attr := L2\<rparr>"
  from transform_m_frame [OF assms(1)] obtain xs where
    s1: "s1 = self" and xs: "arrays w1 = arrays w @ xs" by auto
  from transform_m_frame [OF assms(2)] s1 obtain ys where
    s2: "s2 = ?s2" and ys: "arrays w2 = arrays w1 @ ys" by auto
  have f1: "\<forall>a<length (arrays w). array_at w1 a = array_at w a"
    using array_at_frame [OF xs] by blast
  have f2: "\<forall>a<length (arrays w1). array_at w2 a = array_at w1 a"
    using array_at_frame [OF ys] by blast
  have "\<exists>a1 a2 M1 M2.
             r1 = Inr a1 \<and> r2 = Inr a2 \<and> a1 \<noteq> a2 \<and>
             array_at w1 a1 = Some (Matrix M1) \<and>
             array_at w2 a1 = Some (Matrix M1) \<and>
             array_at w2 a2 = Some (Matrix M2) \<and>
             length M1 = length X \<and> (\<forall>row\<in>set M1. int (length row) = length_attr self) \<and>
             length M2 = length X \<and> (\<forall>row\<in>set M2. int (length row) = L2)"
    if h1: "answers_fixed lib p (length_attr self) (radius self) X"
      and h2: "answers_fixed lib p L2 (radius self) X" and ne: "X \<noteq> []"
      and b: "\<forall>m\<in>set X. returns_bits p (length_attr self) (radius self) m \<and>
                      returns_bits p L2 (radius self) m"
  proof -
    from b have b1: "\<forall>m\<in>set X. returns_bits p (length_attr self) (radius self) m" by blast
    from b have b2: "\<forall>m\<in>set X. returns_bits p (length_attr ?s2) (radius ?s2) m" by simp
    from transform_returns_bits [OF ne b1, of y] obtain M1 where
      M1: "fst (transform p self X y) = Inr M1" "length M1 = length X"
      "\<forall>row\<in>set M1. int (length row) = length_attr self" by auto
    from transform_returns_bits [OF ne b2, of y] obtain M2 where
      M2: "fst (transform p ?s2 X y) = Inr M2" "length M2 = length X"
      "\<forall>row\<in>set M2. int (length row) = L2" by auto
    from transform_m_refines [OF h1 assms(1), of y] M1(1) obtain a1 where
      a1: "r1 = Inr a1" "array_at w1 a1 = Some (Matrix M1)" by auto
    from h2 have h2': "answers_fixed lib p (length_attr ?s2) (radius ?s2) X" by simp
    from transform_m_refines [OF h2' assms(2) [unfolded s1], of y] M2(1) obtain a2 where
      a2: "r2 = Inr a2" "length (arrays w1) \<le> a2" "array_at w2 a2 = Some (Matrix M2)" by auto
    from a1(2) have lt: "a1 < length (arrays w1)" by (rule array_at_Some_less)
    with f2 a1(2) have keep: "array_at w2 a1 = Some (Matrix M1)" by simp
    from lt a2(2) have "a1 \<noteq> a2" by simp
    with a1 a2 keep M1 M2 show ?thesis by blast
  qed
  with s1 s2 f1 f2 show ?thesis by blast
qed

theorem transform_configuration_isolation_witness:
  "answers_fixed counting_lib chain_lib 2 4 [''CN''] \<and>
   answers_fixed counting_lib chain_lib 3 4 [''CN''] \<and>
   returns_bits chain_lib 2 4 ''CN'' \<and> returns_bits chain_lib 3 4 ''CN'' \<and>
   transform_m counting_lib \<lparr>library = 7, arrays = [Matrix [[True]]]\<rparr>
       \<lparr>length_attr = 2, radius = 4\<rparr> [''CN''] (None :: unit option)
     = ((Inr 2, \<lparr>length_attr = 2, radius = 4\<rparr>),
        \<lparr>library = 9, arrays = [Matrix [[True]], Vector [True, True], Matrix [[True, True]]]\<rparr>) \<and>
   transform_m counting_lib
       \<lparr>library = 9, arrays = [Matrix [[True]], Vector [True, True], Matrix [[True, True]]]\<rparr>
       (\<lparr>length_attr = 2, radius = 4\<rparr>\<lparr>length_attr := 3\<rparr>) [''CN''] (None :: unit option)
     = ((Inr 4, \<lparr>length_attr = 3, radius = 4\<rparr>),
        \<lparr>library = 11,
         arrays = [Matrix [[True]], Vector [True, True], Matrix [[True, True]],
                   Vector [True, True, False], Matrix [[True, True, False]]]\<rparr>) \<and>
   array_at \<lparr>library = 11::nat,
         arrays = [Matrix [[True]], Vector [True, True], Matrix [[True, True]],
                   Vector [True, True, False], Matrix [[True, True, False]]]\<rparr> 2
     = array_at \<lparr>library = 9::nat,
         arrays = [Matrix [[True]], Vector [True, True], Matrix [[True, True]]]\<rparr> 2"
proof -
  let ?self = "\<lparr>length_attr = 2, radius = 4\<rparr>"
  let ?w0 = "\<lparr>library = 7::nat, arrays = [Matrix [[True]]]\<rparr>"
  let ?w1 = "\<lparr>library = 9::nat,
         arrays = [Matrix [[True]], Vector [True, True], Matrix [[True, True]]]\<rparr>"
  let ?w2 = "\<lparr>library = 11::nat,
         arrays = [Matrix [[True]], Vector [True, True], Matrix [[True, True]],
                   Vector [True, True, False], Matrix [[True, True, False]]]\<rparr>"
  have b: "returns_bits chain_lib 2 4 ''CN''" "returns_bits chain_lib 3 4 ''CN''"
    by (simp_all add: returns_bits_def chain_lib_def)
  have c1: "transform_m counting_lib ?w0 ?self [''CN''] (None :: unit option)
              = ((Inr 2, ?self), ?w1)"
    by code_simp
  have c2: "transform_m counting_lib ?w1 (?self\<lparr>length_attr := 3\<rparr>) [''CN''] (None :: unit option)
              = ((Inr 4, \<lparr>length_attr = 3, radius = 4\<rparr>), ?w2)"
    by code_simp
  from transform_configuration_isolation [OF c1 c2, of chain_lib]
  have "\<forall>a<length (arrays ?w1). array_at ?w2 a = array_at ?w1 a" by blast
  then have "array_at ?w2 2 = array_at ?w1 2" by simp
  with b c1 c2 answers_fixed_counting show ?thesis by simp
qed

subsection \<open>The methane example\<close>



end
